theory Spec2Isabelle
  imports Main
begin

section \<open>FixedString: a fixed-capacity, inline, null-terminated string\<close>

text \<open>
  A shallow embedding of \<^verbatim>\<open>src/include/fixed_string.h\<close>. The class template
  \<^verbatim>\<open>FixedString<N>\<close> has one data member, \<^verbatim>\<open>char Data[N]\<close>; an instance is the
  record of that buffer and the template parameter \<^verbatim>\<open>N\<close> is the buffer's size.

  Bytes are \<^typ>\<open>char\<close> (8 bits). A \<^verbatim>\<open>std::string_view\<close> and a \<^verbatim>\<open>std::string\<close> are
  byte sequences with their own length (both may hold embedded NUL bytes). A
  \<^verbatim>\<open>const char*\<close> is \<open>None\<close> for the null pointer and otherwise \<open>Some m\<close>, where
  \<open>m\<close> is the bytes of the pointed-to array from the pointer to the array's end.
  Reading or writing outside an array, which is undefined behaviour in C++, and a
  failed \<^verbatim>\<open>assert\<close> are results of their own.
\<close>

subsection \<open>Faults, build modes, sizes\<close>

datatype fault =
    CapacityAssertion     \<comment> \<open>\<^verbatim>\<open>assert(N > 0 && "FixedString capacity must be > 0")\<close>\<close>
  | TruncationAssertion   \<comment> \<open>\<^verbatim>\<open>assert(sv.size() < N && "FixedString: input will be truncated")\<close>\<close>
  | OutOfBounds           \<comment> \<open>an access outside an array (undefined behaviour)\<close>

text \<open>\<^verbatim>\<open>assert\<close> checks its condition in a debug build and is compiled out under \<^verbatim>\<open>NDEBUG\<close>.\<close>

datatype build = Debug | Release

definition assert_that :: "build \<Rightarrow> bool \<Rightarrow> fault \<Rightarrow> fault option" where
  "assert_that b c e = (if b = Debug \<and> \<not> c then Some e else None)"

abbreviation NUL :: char where
  "NUL \<equiv> CHR 0x00"

text \<open>\<^verbatim>\<open>size_t\<close> subtraction wraps around (64-bit \<^verbatim>\<open>size_t\<close>); it matters for \<^verbatim>\<open>N - 1\<close> at \<^verbatim>\<open>N = 0\<close>.\<close>

definition size_t_minus :: "nat \<Rightarrow> nat \<Rightarrow> nat" where
  "size_t_minus a b = (if b \<le> a then a - b else 2 ^ 64 - (b - a))"

subsection \<open>The C library functions the header calls\<close>

text \<open>\<^verbatim>\<open>strlen\<close>: the number of bytes before the first NUL; running off the array is a fault.\<close>

fun strlen :: "char list \<Rightarrow> fault + nat" where
  "strlen [] = Inl OutOfBounds"
| "strlen (c # cs) =
     (if c = NUL then Inr 0
      else (case strlen cs of Inl e \<Rightarrow> Inl e | Inr n \<Rightarrow> Inr (Suc n)))"

text \<open>
  \<^verbatim>\<open>strcmp\<close>: compares byte by byte up to the first difference or the common NUL.
  The C standard fixes only the sign of a non-zero result; the difference of the two
  bytes read as \<^verbatim>\<open>unsigned char\<close> is returned here. The header only tests \<^verbatim>\<open>== 0\<close>.
\<close>

fun strcmp :: "char list \<Rightarrow> char list \<Rightarrow> fault + int" where
  "strcmp (a # as) (b # bs) =
     (if a \<noteq> b then Inr (int (of_char a) - int (of_char b))
      else if a = NUL then Inr 0
      else strcmp as bs)"
| "strcmp _ _ = Inl OutOfBounds"

text \<open>\<^verbatim>\<open>memcpy(dst, src, n)\<close> overwrites the first \<open>n\<close> bytes of \<open>dst\<close> with those of \<open>src\<close>.\<close>

definition memcpy :: "char list \<Rightarrow> char list \<Rightarrow> nat \<Rightarrow> fault + char list" where
  "memcpy dst src n =
     (if n \<le> length dst \<and> n \<le> length src then Inr (take n src @ drop n dst)
      else Inl OutOfBounds)"

text \<open>\<^verbatim>\<open>memset(dst, c, n)\<close> overwrites the first \<open>n\<close> bytes of \<open>dst\<close> with \<open>c\<close>.\<close>

definition memset :: "char list \<Rightarrow> char \<Rightarrow> nat \<Rightarrow> fault + char list" where
  "memset dst c n =
     (if n \<le> length dst then Inr (replicate n c @ drop n dst) else Inl OutOfBounds)"

text \<open>The array store \<^verbatim>\<open>a[i] = c\<close>.\<close>

definition store :: "char list \<Rightarrow> nat \<Rightarrow> char \<Rightarrow> fault + char list" where
  "store a i c = (if i < length a then Inr (a[i := c]) else Inl OutOfBounds)"

text \<open>
  \<^verbatim>\<open>std::string_view(const char*)\<close> and \<^verbatim>\<open>std::string(const char*)\<close>: the bytes of the
  array before its first NUL (both measure the array with \<^verbatim>\<open>strlen\<close>).
\<close>

definition string_view_of :: "char list \<Rightarrow> fault + char list" where
  "string_view_of m = (case strlen m of Inl e \<Rightarrow> Inl e | Inr n \<Rightarrow> Inr (take n m))"

definition string_of :: "char list \<Rightarrow> fault + char list" where
  "string_of m = (case strlen m of Inl e \<Rightarrow> Inl e | Inr n \<Rightarrow> Inr (take n m))"

text \<open>\<^verbatim>\<open>std::string::c_str()\<close>: a pointer to the string's bytes followed by a NUL.\<close>

definition c_str_of_string :: "char list \<Rightarrow> char list option" where
  "c_str_of_string s = Some (s @ [NUL])"

subsection \<open>The class\<close>

record FixedString =
  Data :: "char list"

text \<open>\<^verbatim>\<open>static constexpr size_t Capacity = N;\<close>\<close>

definition Capacity :: "FixedString \<Rightarrow> nat" where
  "Capacity fs = length (Data fs)"

text \<open>
  \<^verbatim>\<open>void Assign(std::string_view sv)\<close>, lines 162-174. The two assertions, then
  \<^verbatim>\<open>copyLen = std::min(sv.size(), N - 1)\<close>, the guarded \<^verbatim>\<open>memcpy\<close> and the store of the
  terminator at \<^verbatim>\<open>Data[copyLen]\<close>.
\<close>

definition Assign_sv :: "build \<Rightarrow> FixedString \<Rightarrow> char list \<Rightarrow> fault + FixedString" where
  "Assign_sv b fs sv =
     (let N = Capacity fs in
      case assert_that b (N > 0) CapacityAssertion of Some e \<Rightarrow> Inl e | None \<Rightarrow>
      case assert_that b (length sv < N) TruncationAssertion of Some e \<Rightarrow> Inl e | None \<Rightarrow>
      let copyLen = min (length sv) (size_t_minus N 1) in
      case (if copyLen > 0 then memcpy (Data fs) sv copyLen else Inr (Data fs)) of
        Inl e \<Rightarrow> Inl e
      | Inr d \<Rightarrow>
          (case store d copyLen NUL of Inl e \<Rightarrow> Inl e | Inr d' \<Rightarrow> Inr (fs\<lparr>Data := d'\<rparr>)))"

text \<open>\<^verbatim>\<open>void Assign(const char* str)\<close>, lines 181-189.\<close>

definition Assign_cstr :: "build \<Rightarrow> FixedString \<Rightarrow> char list option \<Rightarrow> fault + FixedString" where
  "Assign_cstr b fs str =
     (case str of
        None \<Rightarrow> (case store (Data fs) 0 NUL of Inl e \<Rightarrow> Inl e | Inr d \<Rightarrow> Inr (fs\<lparr>Data := d\<rparr>))
      | Some m \<Rightarrow> (case string_view_of m of Inl e \<Rightarrow> Inl e | Inr sv \<Rightarrow> Assign_sv b fs sv))"

text \<open>
  The constructors. The argument \<open>raw\<close> is the object's storage before the constructor
  runs: \<open>N\<close> bytes of indeterminate content. Only the default constructor clears it.
\<close>

definition FixedString_default :: "char list \<Rightarrow> fault + FixedString" where
  "FixedString_default raw =
     (case memset raw NUL (length raw) of Inl e \<Rightarrow> Inl e | Inr d \<Rightarrow> Inr \<lparr>Data = d\<rparr>)"

definition FixedString_copy :: "FixedString \<Rightarrow> FixedString" where
  "FixedString_copy other = \<lparr>Data = Data other\<rparr>"

definition FixedString_cstr :: "build \<Rightarrow> char list \<Rightarrow> char list option \<Rightarrow> fault + FixedString" where
  "FixedString_cstr b raw str = Assign_cstr b \<lparr>Data = raw\<rparr> str"

definition FixedString_string :: "build \<Rightarrow> char list \<Rightarrow> char list \<Rightarrow> fault + FixedString" where
  "FixedString_string b raw str = Assign_cstr b \<lparr>Data = raw\<rparr> (c_str_of_string str)"

definition FixedString_sv :: "build \<Rightarrow> char list \<Rightarrow> char list \<Rightarrow> fault + FixedString" where
  "FixedString_sv b raw sv = Assign_sv b \<lparr>Data = raw\<rparr> sv"

text \<open>The assignment operators (\<^verbatim>\<open>operator=\<close>), lines 59, 84, 91 and 98.\<close>

definition assign_copy :: "FixedString \<Rightarrow> FixedString \<Rightarrow> FixedString" where
  "assign_copy fs other = fs\<lparr>Data := Data other\<rparr>"

definition assign_cstr :: "build \<Rightarrow> FixedString \<Rightarrow> char list option \<Rightarrow> fault + FixedString" where
  "assign_cstr b fs str = Assign_cstr b fs str"

definition assign_string :: "build \<Rightarrow> FixedString \<Rightarrow> char list \<Rightarrow> fault + FixedString" where
  "assign_string b fs str = Assign_cstr b fs (c_str_of_string str)"

definition assign_sv :: "build \<Rightarrow> FixedString \<Rightarrow> char list \<Rightarrow> fault + FixedString" where
  "assign_sv b fs sv = Assign_sv b fs sv"

text \<open>The read accessors: \<^verbatim>\<open>empty()\<close>, \<^verbatim>\<open>length()\<close>, \<^verbatim>\<open>ToString()\<close> and the view conversion.\<close>

definition empty_fs :: "FixedString \<Rightarrow> fault + bool" where
  "empty_fs fs = (case Data fs of [] \<Rightarrow> Inl OutOfBounds | c # _ \<Rightarrow> Inr (c = NUL))"

definition length_fs :: "FixedString \<Rightarrow> fault + nat" where
  "length_fs fs = strlen (Data fs)"

definition ToString :: "FixedString \<Rightarrow> fault + char list" where
  "ToString fs = string_of (Data fs)"

definition to_string_view :: "FixedString \<Rightarrow> fault + char list" where
  "to_string_view fs = string_view_of (Data fs)"

text \<open>Equality and inequality, lines 106-149.\<close>

definition eq_fs :: "FixedString \<Rightarrow> FixedString \<Rightarrow> fault + bool" where
  "eq_fs fs other =
     (case strcmp (Data fs) (Data other) of Inl e \<Rightarrow> Inl e | Inr r \<Rightarrow> Inr (r = 0))"

definition eq_cstr :: "FixedString \<Rightarrow> char list option \<Rightarrow> fault + bool" where
  "eq_cstr fs other =
     (case other of
        None \<Rightarrow> Inr False
      | Some m \<Rightarrow> (case strcmp (Data fs) m of Inl e \<Rightarrow> Inl e | Inr r \<Rightarrow> Inr (r = 0)))"

definition eq_sv :: "FixedString \<Rightarrow> char list \<Rightarrow> fault + bool" where
  "eq_sv fs other =
     (case string_view_of (Data fs) of Inl e \<Rightarrow> Inl e | Inr v \<Rightarrow> Inr (v = other))"

definition ne_cstr :: "FixedString \<Rightarrow> char list option \<Rightarrow> fault + bool" where
  "ne_cstr fs other = (case eq_cstr fs other of Inl e \<Rightarrow> Inl e | Inr r \<Rightarrow> Inr (\<not> r))"

definition ne_sv :: "FixedString \<Rightarrow> char list \<Rightarrow> fault + bool" where
  "ne_sv fs other = (case eq_sv fs other of Inl e \<Rightarrow> Inl e | Inr r \<Rightarrow> Inr (\<not> r))"

definition ne_fs :: "FixedString \<Rightarrow> FixedString \<Rightarrow> fault + bool" where
  "ne_fs fs other = (case eq_fs fs other of Inl e \<Rightarrow> Inl e | Inr r \<Rightarrow> Inr (\<not> r))"

text \<open>
  Concatenation, lines 246-287. \<^verbatim>\<open>std::string + const char*\<close> appends the bytes of the
  array before its first NUL.
\<close>

definition append_cstr :: "char list \<Rightarrow> char list \<Rightarrow> fault + char list" where
  "append_cstr s m = (case strlen m of Inl e \<Rightarrow> Inl e | Inr n \<Rightarrow> Inr (s @ take n m))"

text \<open>\<^verbatim>\<open>p ? p : ""\<close>\<close>

definition or_empty :: "char list option \<Rightarrow> char list" where
  "or_empty p = (case p of None \<Rightarrow> [NUL] | Some m \<Rightarrow> m)"

definition plus_sv_fs :: "char list \<Rightarrow> FixedString \<Rightarrow> fault + char list" where
  "plus_sv_fs lhs rhs = append_cstr lhs (Data rhs)"

definition plus_fs_sv :: "FixedString \<Rightarrow> char list \<Rightarrow> fault + char list" where
  "plus_fs_sv lhs rhs = (case string_of (Data lhs) of Inl e \<Rightarrow> Inl e | Inr s \<Rightarrow> Inr (s @ rhs))"

definition plus_fs_cstr :: "FixedString \<Rightarrow> char list option \<Rightarrow> fault + char list" where
  "plus_fs_cstr lhs rhs =
     (case string_of (Data lhs) of Inl e \<Rightarrow> Inl e | Inr s \<Rightarrow> append_cstr s (or_empty rhs))"

definition plus_cstr_fs :: "char list option \<Rightarrow> FixedString \<Rightarrow> fault + char list" where
  "plus_cstr_fs lhs rhs =
     (case string_of (or_empty lhs) of Inl e \<Rightarrow> Inl e | Inr s \<Rightarrow> append_cstr s (Data rhs))"

definition plus_fs_fs :: "FixedString \<Rightarrow> FixedString \<Rightarrow> fault + char list" where
  "plus_fs_fs lhs rhs =
     (case string_of (Data lhs) of Inl e \<Rightarrow> Inl e | Inr s \<Rightarrow> append_cstr s (Data rhs))"

subsection \<open>Logical content and the invariant\<close>

text \<open>The logical content of a buffer: its bytes before the first NUL.\<close>

definition content :: "char list \<Rightarrow> char list" where
  "content m = takeWhile (\<lambda>c. c \<noteq> NUL) m"

text \<open>A buffer is terminated when it holds a NUL.\<close>

definition terminated :: "char list \<Rightarrow> bool" where
  "terminated m = (NUL \<in> set m)"

text \<open>
  Invariants I1 and I2: the buffer holds a NUL within its \<open>N\<close> bytes and
  \<^verbatim>\<open>length()\<close> is at most \<open>N - 1\<close>.
\<close>

definition invariant :: "FixedString \<Rightarrow> bool" where
  "invariant fs =
     (terminated (Data fs) \<and>
      (case length_fs fs of Inl e \<Rightarrow> False | Inr n \<Rightarrow> n \<le> Capacity fs - 1))"

text \<open>A pointer argument is valid when it is null or points to a terminated array.\<close>

definition valid_cstr :: "char list option \<Rightarrow> bool" where
  "valid_cstr p = (case p of None \<Rightarrow> True | Some m \<Rightarrow> terminated m)"

text \<open>
  An operation on a capacity of \<open>N\<close> establishes the invariant when it completes with an
  instance of that capacity satisfying it; in a debug build it may instead stop at the
  truncation assertion, leaving no completed operation.
\<close>

definition establishes :: "build \<Rightarrow> nat \<Rightarrow> fault + FixedString \<Rightarrow> bool" where
  "establishes b N r =
     (case r of
        Inr fs' \<Rightarrow> Capacity fs' = N \<and> invariant fs'
      | Inl e \<Rightarrow> b = Debug \<and> e = TruncationAssertion)"

section \<open>Properties\<close>

subsection \<open>The library functions on terminated arrays\<close>

lemma strlen_terminated: "terminated m \<Longrightarrow> strlen m = Inr (length (content m))"
  by (induction m) (auto simp: terminated_def content_def)

lemma strlen_unterminated: "\<not> terminated m \<Longrightarrow> strlen m = Inl OutOfBounds"
  by (induction m) (auto simp: terminated_def)

lemma take_content: "take (length (content m)) m = content m"
  unfolding content_def by (induction m) auto

lemma string_view_of_terminated: "terminated m \<Longrightarrow> string_view_of m = Inr (content m)"
  by (simp add: string_view_of_def strlen_terminated take_content)

lemma string_of_terminated: "terminated m \<Longrightarrow> string_of m = Inr (content m)"
  by (simp add: string_of_def strlen_terminated take_content)

lemma append_cstr_terminated: "terminated m \<Longrightarrow> append_cstr s m = Inr (s @ content m)"
  by (simp add: append_cstr_def strlen_terminated take_content)

lemma strcmp_terminated:
  "terminated a \<Longrightarrow> terminated b \<Longrightarrow>
     \<exists>r. strcmp a b = Inr r \<and> (r = 0) = (content a = content b)"
  by (induction a b rule: strcmp.induct) (auto simp: terminated_def content_def)

lemma content_length_le: "terminated m \<Longrightarrow> length (content m) < length m"
  unfolding terminated_def content_def
  by (induction m) auto

lemma content_no_NUL: "NUL \<notin> set (content m)"
  unfolding content_def by (induction m) auto

lemma content_append_NUL: "NUL \<notin> set s \<Longrightarrow> content (s @ NUL # t) = s"
  unfolding content_def by (induction s) auto

lemma content_append_NUL_gen: "content (s @ NUL # t) = content s"
  unfolding content_def by (induction s) auto

subsection \<open>What \<open>Assign\<close> computes\<close>

lemma Assign_sv_Release:
  assumes "0 < Capacity fs"
  shows "Assign_sv Release fs sv =
           Inr (fs\<lparr>Data := take (min (length sv) (Capacity fs - 1)) sv @ NUL #
                              drop (Suc (min (length sv) (Capacity fs - 1))) (Data fs)\<rparr>)"
proof -
  define k where "k = min (length sv) (Capacity fs - 1)"
  have k: "k \<le> length sv" "k < length (Data fs)"
    using assms unfolding k_def Capacity_def by linarith+
  have sz: "min (length sv) (size_t_minus (Capacity fs) 1) = k"
    using assms unfolding k_def size_t_minus_def by simp
  have cpy: "(if k > 0 then memcpy (Data fs) sv k else Inr (Data fs)) =
               Inr (take k sv @ drop k (Data fs))"
    using k by (simp add: memcpy_def)
  have upd: "store (take k sv @ drop k (Data fs)) k NUL =
               Inr (take k sv @ NUL # drop (Suc k) (Data fs))"
    using k by (simp add: store_def list_update_append upd_conv_take_nth_drop drop_Suc)
  have "Assign_sv Release fs sv =
          Inr (fs\<lparr>Data := take k sv @ NUL # drop (Suc k) (Data fs)\<rparr>)"
    unfolding Assign_sv_def Let_def sz
    by (simp add: cpy upd assert_that_def)
  then show ?thesis
    unfolding k_def .
qed

lemma Assign_sv_Debug:
  "Assign_sv Debug fs sv =
     (if Capacity fs = 0 then Inl CapacityAssertion
      else if Capacity fs \<le> length sv then Inl TruncationAssertion
      else Assign_sv Release fs sv)"
  by (simp add: Assign_sv_def assert_that_def Let_def)

lemma Assign_sv_Inr:
  assumes "0 < Capacity fs" "b = Debug \<longrightarrow> length sv < Capacity fs"
  shows "Assign_sv b fs sv =
           Inr (fs\<lparr>Data := take (min (length sv) (Capacity fs - 1)) sv @ NUL #
                              drop (Suc (min (length sv) (Capacity fs - 1))) (Data fs)\<rparr>)"
proof (cases b)
  case Debug
  with assms show ?thesis
    by (simp add: Assign_sv_Debug Assign_sv_Release)
next
  case Release
  with assms show ?thesis
    by (simp add: Assign_sv_Release)
qed

lemma Assign_sv_no_capacity: "Capacity fs = 0 \<Longrightarrow> \<exists>e. Assign_sv b fs sv = Inl e"
  by (cases b)
     (auto simp: Assign_sv_def assert_that_def Capacity_def size_t_minus_def memcpy_def
        store_def Let_def)

lemma length_fs_buffer:
  "length_fs (fs\<lparr>Data := s @ NUL # t\<rparr>) = Inr (length (content s))"
  by (simp add: length_fs_def strlen_terminated terminated_def content_append_NUL_gen)

lemma to_string_view_buffer:
  "to_string_view (fs\<lparr>Data := s @ NUL # t\<rparr>) = Inr (content s)"
  by (simp add: to_string_view_def string_view_of_terminated terminated_def
      content_append_NUL_gen)

lemma content_id: "NUL \<notin> set s \<Longrightarrow> content s = s"
  unfolding content_def by (induction s) auto

lemma length_content_le: "length (content s) \<le> length s"
  unfolding content_def by (rule length_takeWhile_le)

lemma invariant_iff: "invariant fs = terminated (Data fs)"
proof (cases "terminated (Data fs)")
  case True
  then have "length (content (Data fs)) \<le> length (Data fs) - 1"
    using content_length_le [of "Data fs"] by simp
  with True show ?thesis
    by (simp add: invariant_def length_fs_def strlen_terminated Capacity_def)
next
  case False
  then show ?thesis by (simp add: invariant_def)
qed

lemma eq_fs_terminated:
  assumes "terminated (Data a)" and "terminated (Data b)"
  shows "eq_fs a b = Inr (content (Data a) = content (Data b))"
proof -
  from strcmp_terminated [OF assms] obtain r where
    "strcmp (Data a) (Data b) = Inr r" and "(r = 0) = (content (Data a) = content (Data b))"
    by blast
  then show ?thesis by (simp add: eq_fs_def)
qed

subsection \<open>The pointer overload and the invariant\<close>

lemma Assign_sv_establishes:
  assumes "0 < Capacity fs"
  shows "establishes b (Capacity fs) (Assign_sv b fs sv)"
proof (cases "b = Debug \<and> Capacity fs \<le> length sv")
  case True
  with assms show ?thesis
    by (simp add: Assign_sv_Debug establishes_def)
next
  case False
  define k where "k = min (length sv) (Capacity fs - 1)"
  define fs' where "fs' = fs\<lparr>Data := take k sv @ NUL # drop (Suc k) (Data fs)\<rparr>"
  have k: "k \<le> length sv" "k < length (Data fs)"
    using assms unfolding k_def Capacity_def by linarith+
  from False have "b = Debug \<longrightarrow> length sv < Capacity fs"
    by auto
  then have r: "Assign_sv b fs sv = Inr fs'"
    using Assign_sv_Inr [OF assms, of b sv] by (simp add: fs'_def k_def)
  have c: "Capacity fs' = Capacity fs"
    using k by (simp add: Capacity_def fs'_def)
  have "terminated (Data fs')"
    by (simp add: fs'_def terminated_def)
  then have "invariant fs'"
    by (simp add: invariant_iff)
  with r c show ?thesis
    by (simp add: establishes_def)
qed

lemma store_first: "0 < length d \<Longrightarrow> store d 0 NUL = Inr (NUL # tl d)"
  by (cases d) (simp_all add: store_def)

lemma Assign_cstr_None:
  "0 < Capacity fs \<Longrightarrow> Assign_cstr b fs None = Inr (fs\<lparr>Data := NUL # tl (Data fs)\<rparr>)"
  by (simp add: Assign_cstr_def Capacity_def store_first)

lemma Assign_cstr_Some:
  "terminated m \<Longrightarrow> Assign_cstr b fs (Some m) = Assign_sv b fs (content m)"
  by (simp add: Assign_cstr_def string_view_of_terminated)

lemma Assign_cstr_establishes:
  assumes "0 < Capacity fs" and "valid_cstr p"
  shows "establishes b (Capacity fs) (Assign_cstr b fs p)"
proof (cases p)
  case None
  have "invariant (fs\<lparr>Data := NUL # tl (Data fs)\<rparr>)"
    by (simp add: invariant_iff terminated_def)
  moreover have "Capacity (fs\<lparr>Data := NUL # tl (Data fs)\<rparr>) = Capacity fs"
    using assms(1) by (simp add: Capacity_def)
  ultimately show ?thesis
    using assms(1) None by (simp add: Assign_cstr_None establishes_def)
next
  case (Some m)
  with assms show ?thesis
    by (simp add: valid_cstr_def Assign_cstr_Some Assign_sv_establishes)
qed

lemma valid_c_str_of_string: "valid_cstr (c_str_of_string s)"
  by (simp add: valid_cstr_def c_str_of_string_def terminated_def)

lemma Capacity_raw: "Capacity \<lparr>Data = raw\<rparr> = length raw"
  by (simp add: Capacity_def)

lemma content_c_str: "content (s @ [NUL]) = content s"
  by (rule content_append_NUL_gen)

lemma Assign_cstr_string: "Assign_cstr b fs (c_str_of_string s) = Assign_sv b fs (content s)"
  by (simp add: c_str_of_string_def Assign_cstr_Some terminated_def content_c_str)

subsection \<open>Assignment from a view that does not fit\<close>

text \<open>
  C1, as amended. For a capacity \<open>N > 0\<close> and a view of length \<open>L \<ge> N\<close>, a release
  build copies exactly the first \<open>N - 1\<close> bytes of the input and stores the terminator at
  offset \<open>N - 1\<close>: the buffer keeps its \<open>N\<close> bytes and nothing is written past it.
  \<^verbatim>\<open>length()\<close> and the content are those \<open>N - 1\<close> bytes up to their first NUL byte; when
  they hold no NUL byte, \<^verbatim>\<open>length() == N - 1\<close> and the content is exactly the first
  \<open>N - 1\<close> bytes of the input. A debug build stops at the truncation assertion.
\<close>

theorem Assign_truncates:
  assumes "0 < Capacity fs" and "Capacity fs \<le> length sv"
  shows "(\<exists>fs'. Assign_sv Release fs sv = Inr fs' \<and>
            Capacity fs' = Capacity fs \<and>
            Data fs' = take (Capacity fs - 1) sv @ [NUL] \<and>
            length_fs fs' = Inr (length (content (take (Capacity fs - 1) sv))) \<and>
            to_string_view fs' = Inr (content (take (Capacity fs - 1) sv)) \<and>
            (NUL \<notin> set (take (Capacity fs - 1) sv) \<longrightarrow>
               length_fs fs' = Inr (Capacity fs - 1) \<and>
               to_string_view fs' = Inr (take (Capacity fs - 1) sv))) \<and>
         Assign_sv Debug fs sv = Inl TruncationAssertion"
proof -
  define p where "p = take (Capacity fs - 1) sv"
  define fs' where "fs' = fs\<lparr>Data := p @ [NUL]\<rparr>"
  have k: "min (length sv) (Capacity fs - 1) = Capacity fs - 1"
    using assms by simp
  have d: "drop (Suc (Capacity fs - 1)) (Data fs) = []"
    using assms by (simp add: Capacity_def)
  have r: "Assign_sv Release fs sv = Inr fs'"
    using Assign_sv_Release [of fs sv] assms(1) unfolding fs'_def p_def by (simp only: k d)
  have lp: "length p = Capacity fs - 1"
    using assms by (simp add: p_def)
  have c: "Capacity fs' = Capacity fs"
    using assms(1) lp by (simp add: Capacity_def fs'_def)
  have t: "Data fs' = p @ [NUL]"
    by (simp add: fs'_def)
  have l: "length_fs fs' = Inr (length (content p))"
    unfolding fs'_def by (rule length_fs_buffer)
  have v: "to_string_view fs' = Inr (content p)"
    unfolding fs'_def by (rule to_string_view_buffer)
  have n: "NUL \<notin> set p \<longrightarrow> length_fs fs' = Inr (Capacity fs - 1) \<and> to_string_view fs' = Inr p"
    using l v lp by (simp add: content_id)
  have dbg: "Assign_sv Debug fs sv = Inl TruncationAssertion"
    using assms by (simp add: Assign_sv_Debug)
  from r c t l v n dbg show ?thesis
    unfolding p_def by (intro exI [of _ fs'] conjI) assumption+
qed

text \<open>
  The scenario of the specification: capacity 4 and the six bytes \<open>abcdef\<close>.
\<close>

theorem Assign_truncates_witness:
  "0 < Capacity \<lparr>Data = ''xxxx''\<rparr> \<and> Capacity \<lparr>Data = ''xxxx''\<rparr> \<le> length ''abcdef'' \<and>
   NUL \<notin> set (take (Capacity \<lparr>Data = ''xxxx''\<rparr> - 1) ''abcdef'') \<and>
   (\<exists>fs'. Assign_sv Release \<lparr>Data = ''xxxx''\<rparr> ''abcdef'' = Inr fs' \<and>
      Data fs' = ''abc'' @ [NUL] \<and> length_fs fs' = Inr 3 \<and> to_string_view fs' = Inr ''abc'') \<and>
   Assign_sv Debug \<lparr>Data = ''xxxx''\<rparr> ''abcdef'' = Inl TruncationAssertion"
proof -
  have h1: "0 < Capacity \<lparr>Data = ''xxxx''\<rparr>"
    by (simp add: Capacity_def)
  have h2: "Capacity \<lparr>Data = ''xxxx''\<rparr> \<le> length ''abcdef''"
    by (simp add: Capacity_def)
  have h3: "NUL \<notin> set (take (Capacity \<lparr>Data = ''xxxx''\<rparr> - 1) ''abcdef'')"
    by (simp add: Capacity_def)
  have c: "Capacity \<lparr>Data = ''xxxx''\<rparr> - 1 = 3" "take 3 ''abcdef'' = ''abc''"
    by (simp_all add: Capacity_def)
  from Assign_truncates [OF h1 h2] h3 obtain fs' where
    "Assign_sv Release \<lparr>Data = ''xxxx''\<rparr> ''abcdef'' = Inr fs'"
    "Data fs' = take (Capacity \<lparr>Data = ''xxxx''\<rparr> - 1) ''abcdef'' @ [NUL]"
    "length_fs fs' = Inr (Capacity \<lparr>Data = ''xxxx''\<rparr> - 1)"
    "to_string_view fs' = Inr (take (Capacity \<lparr>Data = ''xxxx''\<rparr> - 1) ''abcdef'')"
    "Assign_sv Debug \<lparr>Data = ''xxxx''\<rparr> ''abcdef'' = Inl TruncationAssertion"
    by (elim conjE exE) (erule impE, assumption, elim conjE)
  then have "(\<exists>fs'. Assign_sv Release \<lparr>Data = ''xxxx''\<rparr> ''abcdef'' = Inr fs' \<and>
      Data fs' = ''abc'' @ [NUL] \<and> length_fs fs' = Inr 3 \<and> to_string_view fs' = Inr ''abc'') \<and>
   Assign_sv Debug \<lparr>Data = ''xxxx''\<rparr> ''abcdef'' = Inl TruncationAssertion"
    unfolding c by (intro conjI exI [of _ fs']) assumption+
  with h1 h2 h3 show ?thesis
    by (intro conjI) (elim conjE; assumption)+
qed

text \<open>
  C1 as stated, for every view, fails: the six bytes \<open>a\<close>, NUL, \<open>c\<close>, \<open>d\<close>, \<open>e\<close>,
  \<open>f\<close> assigned to a capacity of 4 give \<^verbatim>\<open>length() == 1\<close>, not 3, and the content
  \<open>a\<close>.
\<close>

theorem Assign_truncates_embedded_NUL_counterexample:
  "0 < Capacity \<lparr>Data = ''xxxx''\<rparr> \<and>
   Capacity \<lparr>Data = ''xxxx''\<rparr> \<le> length ([CHR ''a'', NUL] @ ''cdef'') \<and>
   Assign_sv Release \<lparr>Data = ''xxxx''\<rparr> ([CHR ''a'', NUL] @ ''cdef'') =
     Inr \<lparr>Data = [CHR ''a'', NUL, CHR ''c'', NUL]\<rparr> \<and>
   length_fs \<lparr>Data = [CHR ''a'', NUL, CHR ''c'', NUL]\<rparr> = Inr 1 \<and>
   length_fs \<lparr>Data = [CHR ''a'', NUL, CHR ''c'', NUL]\<rparr> \<noteq> Inr (Capacity \<lparr>Data = ''xxxx''\<rparr> - 1) \<and>
   to_string_view \<lparr>Data = [CHR ''a'', NUL, CHR ''c'', NUL]\<rparr> = Inr ''a'' \<and>
   to_string_view \<lparr>Data = [CHR ''a'', NUL, CHR ''c'', NUL]\<rparr> \<noteq>
     Inr (take (Capacity \<lparr>Data = ''xxxx''\<rparr> - 1) ([CHR ''a'', NUL] @ ''cdef''))"
  by (simp add: Assign_sv_def assert_that_def Capacity_def size_t_minus_def memcpy_def
      store_def length_fs_def to_string_view_def string_view_of_def)

subsection \<open>Assignment from a view that fits\<close>

text \<open>
  C2, as amended. For a capacity \<open>N > 0\<close> and a view of length \<open>L < N\<close>, \<open>Assign\<close>
  completes in both build modes, the buffer's first \<open>L\<close> bytes are the input and the byte
  at offset \<open>L\<close> is the terminator. \<^verbatim>\<open>length()\<close> and the content stop at the input's
  first NUL byte; when the input holds no NUL byte, \<^verbatim>\<open>length() == L\<close> and the content
  is the input exactly.
\<close>

theorem Assign_fits:
  assumes "0 < Capacity fs" and "length sv < Capacity fs"
  shows "\<exists>fs'. Assign_sv b fs sv = Inr fs' \<and>
           Capacity fs' = Capacity fs \<and>
           take (length sv) (Data fs') = sv \<and> Data fs' ! length sv = NUL \<and>
           length_fs fs' = Inr (length (content sv)) \<and>
           to_string_view fs' = Inr (content sv) \<and>
           (NUL \<notin> set sv \<longrightarrow>
              length_fs fs' = Inr (length sv) \<and> to_string_view fs' = Inr sv)"
proof -
  define fs' where "fs' = fs\<lparr>Data := sv @ NUL # drop (Suc (length sv)) (Data fs)\<rparr>"
  have k: "min (length sv) (Capacity fs - 1) = length sv"
    using assms by simp
  have r: "Assign_sv b fs sv = Inr fs'"
    using Assign_sv_Inr [of fs b sv] assms by (simp add: k fs'_def)
  have c: "Capacity fs' = Capacity fs"
    using assms by (simp add: Capacity_def fs'_def)
  have t: "take (length sv) (Data fs') = sv" "Data fs' ! length sv = NUL"
    by (simp_all add: fs'_def)
  have l: "length_fs fs' = Inr (length (content sv))"
    unfolding fs'_def by (rule length_fs_buffer)
  have v: "to_string_view fs' = Inr (content sv)"
    unfolding fs'_def by (rule to_string_view_buffer)
  have n: "NUL \<notin> set sv \<longrightarrow> length_fs fs' = Inr (length sv) \<and> to_string_view fs' = Inr sv"
    using l v by (simp add: content_id)
  from r c t l v n show ?thesis
    by (intro exI [of _ fs'] conjI) assumption+
qed

text \<open>
  The two bytes \<open>hi\<close> assigned to a capacity of 8 in a debug build.
\<close>

theorem Assign_fits_witness:
  "0 < Capacity \<lparr>Data = ''xxxxxxxx''\<rparr> \<and> length ''hi'' < Capacity \<lparr>Data = ''xxxxxxxx''\<rparr> \<and>
   NUL \<notin> set ''hi'' \<and>
   (\<exists>fs'. Assign_sv Debug \<lparr>Data = ''xxxxxxxx''\<rparr> ''hi'' = Inr fs' \<and>
      Capacity fs' = 8 \<and> take 2 (Data fs') = ''hi'' \<and> Data fs' ! 2 = NUL \<and>
      length_fs fs' = Inr 2 \<and> to_string_view fs' = Inr ''hi'')"
proof -
  have h1: "0 < Capacity \<lparr>Data = ''xxxxxxxx''\<rparr>"
    by (simp add: Capacity_def)
  have h2: "length ''hi'' < Capacity \<lparr>Data = ''xxxxxxxx''\<rparr>"
    by (simp add: Capacity_def)
  have h3: "NUL \<notin> set ''hi''"
    by simp
  have c: "Capacity \<lparr>Data = ''xxxxxxxx''\<rparr> = 8" "length ''hi'' = 2"
    by (simp_all add: Capacity_def)
  from Assign_fits [OF h1 h2, of Debug] h3 obtain fs' where
    "Assign_sv Debug \<lparr>Data = ''xxxxxxxx''\<rparr> ''hi'' = Inr fs'"
    "Capacity fs' = Capacity \<lparr>Data = ''xxxxxxxx''\<rparr>"
    "take (length ''hi'') (Data fs') = ''hi''"
    "Data fs' ! length ''hi'' = NUL"
    "length_fs fs' = Inr (length ''hi'')"
    "to_string_view fs' = Inr ''hi''"
    by (elim conjE exE) (erule impE, assumption, elim conjE)
  then have "\<exists>fs'. Assign_sv Debug \<lparr>Data = ''xxxxxxxx''\<rparr> ''hi'' = Inr fs' \<and>
      Capacity fs' = 8 \<and> take 2 (Data fs') = ''hi'' \<and> Data fs' ! 2 = NUL \<and>
      length_fs fs' = Inr 2 \<and> to_string_view fs' = Inr ''hi''"
    unfolding c by (intro conjI exI [of _ fs']) assumption+
  with h1 h2 h3 show ?thesis
    by (intro conjI) assumption+
qed

text \<open>
  C2 as stated, for arbitrary input bytes, fails: the three bytes \<open>a\<close>, NUL, \<open>b\<close>
  assigned to a capacity of 8 give \<^verbatim>\<open>length() == 1\<close> and the content \<open>a\<close>.
\<close>

theorem Assign_fits_embedded_NUL_counterexample:
  "0 < Capacity \<lparr>Data = ''xxxxxxxx''\<rparr> \<and>
   length [CHR ''a'', NUL, CHR ''b''] < Capacity \<lparr>Data = ''xxxxxxxx''\<rparr> \<and>
   Assign_sv Release \<lparr>Data = ''xxxxxxxx''\<rparr> [CHR ''a'', NUL, CHR ''b''] =
     Inr \<lparr>Data = [CHR ''a'', NUL, CHR ''b'', NUL] @ ''xxxx''\<rparr> \<and>
   Assign_sv Debug \<lparr>Data = ''xxxxxxxx''\<rparr> [CHR ''a'', NUL, CHR ''b''] =
     Inr \<lparr>Data = [CHR ''a'', NUL, CHR ''b'', NUL] @ ''xxxx''\<rparr> \<and>
   length_fs \<lparr>Data = [CHR ''a'', NUL, CHR ''b'', NUL] @ ''xxxx''\<rparr> = Inr 1 \<and>
   length_fs \<lparr>Data = [CHR ''a'', NUL, CHR ''b'', NUL] @ ''xxxx''\<rparr> \<noteq>
     Inr (length [CHR ''a'', NUL, CHR ''b'']) \<and>
   to_string_view \<lparr>Data = [CHR ''a'', NUL, CHR ''b'', NUL] @ ''xxxx''\<rparr> = Inr ''a''"
  by (simp add: Assign_sv_def assert_that_def Capacity_def size_t_minus_def memcpy_def
      store_def length_fs_def to_string_view_def string_view_of_def)

subsection \<open>The invariant\<close>

text \<open>
  C3. For a capacity \<open>N > 0\<close>, the default constructor, the constructors and
  assignment operators from a C pointer (null or pointing to a terminated array), from a
  \<^verbatim>\<open>std::string\<close> and from a \<^verbatim>\<open>std::string_view\<close> establish the invariant (the buffer
  holds a NUL within its \<open>N\<close> bytes and \<^verbatim>\<open>length()\<close> is at most \<open>N - 1\<close>) whenever they
  complete, which a release build always does; copy construction and copy assignment
  preserve it.
\<close>

theorem invariant_established:
  assumes "0 < length raw" and "0 < Capacity fs" and "valid_cstr p" and "invariant other"
  shows "(\<exists>x. FixedString_default raw = Inr x \<and> Capacity x = length raw \<and> invariant x) \<and>
         establishes b (length raw) (FixedString_cstr b raw p) \<and>
         establishes b (length raw) (FixedString_string b raw s) \<and>
         establishes b (length raw) (FixedString_sv b raw sv) \<and>
         establishes b (Capacity fs) (assign_cstr b fs p) \<and>
         establishes b (Capacity fs) (assign_string b fs s) \<and>
         establishes b (Capacity fs) (assign_sv b fs sv) \<and>
         invariant (FixedString_copy other) \<and>
         invariant (assign_copy fs other)"
proof -
  have raw: "0 < Capacity \<lparr>Data = raw\<rparr>"
    using assms(1) by (simp add: Capacity_def)
  have d: "\<exists>x. FixedString_default raw = Inr x \<and> Capacity x = length raw \<and> invariant x"
    using assms(1)
    by (simp add: FixedString_default_def memset_def Capacity_def invariant_iff terminated_def)
  have c1: "establishes b (length raw) (FixedString_cstr b raw p)"
    using Assign_cstr_establishes [OF raw assms(3), of b]
    by (simp add: FixedString_cstr_def Capacity_raw)
  have c2: "establishes b (length raw) (FixedString_string b raw s)"
    using Assign_cstr_establishes [OF raw valid_c_str_of_string, of b s]
    by (simp add: FixedString_string_def Capacity_raw)
  have c3: "establishes b (length raw) (FixedString_sv b raw sv)"
    using Assign_sv_establishes [OF raw, of b sv]
    by (simp add: FixedString_sv_def Capacity_raw)
  have a1: "establishes b (Capacity fs) (assign_cstr b fs p)"
    using Assign_cstr_establishes [OF assms(2) assms(3), of b]
    by (simp add: assign_cstr_def)
  have a2: "establishes b (Capacity fs) (assign_string b fs s)"
    using Assign_cstr_establishes [OF assms(2) valid_c_str_of_string, of b s]
    by (simp add: assign_string_def)
  have a3: "establishes b (Capacity fs) (assign_sv b fs sv)"
    using Assign_sv_establishes [OF assms(2), of b sv]
    by (simp add: assign_sv_def)
  have k1: "invariant (FixedString_copy other)"
    using assms(4) by (simp add: invariant_iff FixedString_copy_def)
  have k2: "invariant (assign_copy fs other)"
    using assms(4) by (simp add: invariant_iff assign_copy_def)
  from d c1 c2 c3 a1 a2 a3 k1 k2 show ?thesis
    by (intro conjI) assumption+
qed

text \<open>
  Release-build operations on a capacity of 4, with sources that fit and that do not.
\<close>

theorem invariant_established_witness:
  "0 < length ''xxxx'' \<and> 0 < Capacity \<lparr>Data = ''ab'' @ [NUL, CHR ''x'']\<rparr> \<and>
   valid_cstr (Some (''abc'' @ [NUL])) \<and> invariant \<lparr>Data = ''hi'' @ [NUL, CHR ''x'']\<rparr> \<and>
   (\<exists>x. FixedString_default ''xxxx'' = Inr x \<and> Capacity x = length ''xxxx'' \<and> invariant x) \<and>
   establishes Release (length ''xxxx'') (FixedString_cstr Release ''xxxx'' (Some (''abc'' @ [NUL]))) \<and>
   establishes Release (length ''xxxx'') (FixedString_string Release ''xxxx'' ''abcdef'') \<and>
   establishes Release (length ''xxxx'') (FixedString_sv Release ''xxxx'' ''abcdef'') \<and>
   establishes Release (Capacity \<lparr>Data = ''ab'' @ [NUL, CHR ''x'']\<rparr>)
     (assign_cstr Release \<lparr>Data = ''ab'' @ [NUL, CHR ''x'']\<rparr> (Some (''abc'' @ [NUL]))) \<and>
   establishes Release (Capacity \<lparr>Data = ''ab'' @ [NUL, CHR ''x'']\<rparr>)
     (assign_string Release \<lparr>Data = ''ab'' @ [NUL, CHR ''x'']\<rparr> ''abcdef'') \<and>
   establishes Release (Capacity \<lparr>Data = ''ab'' @ [NUL, CHR ''x'']\<rparr>)
     (assign_sv Release \<lparr>Data = ''ab'' @ [NUL, CHR ''x'']\<rparr> ''abcdef'') \<and>
   invariant (FixedString_copy \<lparr>Data = ''hi'' @ [NUL, CHR ''x'']\<rparr>) \<and>
   invariant (assign_copy \<lparr>Data = ''ab'' @ [NUL, CHR ''x'']\<rparr> \<lparr>Data = ''hi'' @ [NUL, CHR ''x'']\<rparr>)"
proof -
  have h1: "0 < length ''xxxx''"
    by simp
  have h2: "0 < Capacity \<lparr>Data = ''ab'' @ [NUL, CHR ''x'']\<rparr>"
    by (simp add: Capacity_def)
  have h3: "valid_cstr (Some (''abc'' @ [NUL]))"
    by (simp add: valid_cstr_def terminated_def)
  have h4: "invariant \<lparr>Data = ''hi'' @ [NUL, CHR ''x'']\<rparr>"
    by (simp add: invariant_def terminated_def length_fs_def Capacity_def)
  from h1 h2 h3 h4 invariant_established [OF h1 h2 h3 h4, of Release "''abcdef''" "''abcdef''"]
  show ?thesis
    by (elim conjE) (intro conjI; assumption)
qed

subsection \<open>Equality\<close>

text \<open>
  C4. No instance is equal to the null pointer, and every instance is unequal to it; an
  empty instance is equal to the empty view and to the literal \<^verbatim>\<open>""\<close> (a pointer to a
  single NUL byte).
\<close>

theorem null_pointer_asymmetry:
  "eq_cstr fs None = Inr False \<and> ne_cstr fs None = Inr True \<and>
   (empty_fs fs = Inr True \<longrightarrow>
      eq_sv fs [] = Inr True \<and> eq_cstr fs (Some [NUL]) = Inr True \<and>
      ne_sv fs [] = Inr False \<and> ne_cstr fs (Some [NUL]) = Inr False)"
proof (intro conjI impI)
  show "eq_cstr fs None = Inr False"
    by (simp add: eq_cstr_def)
  show "ne_cstr fs None = Inr True"
    by (simp add: ne_cstr_def eq_cstr_def)
next
  assume e: "empty_fs fs = Inr True"
  then obtain t where d: "Data fs = NUL # t"
    by (cases "Data fs") (auto simp: empty_fs_def)
  show "eq_sv fs [] = Inr True"
    by (simp add: eq_sv_def string_view_of_def d)
  then show "ne_sv fs [] = Inr False"
    by (simp add: ne_sv_def)
  show "eq_cstr fs (Some [NUL]) = Inr True"
    by (simp add: eq_cstr_def d)
  then show "ne_cstr fs (Some [NUL]) = Inr False"
    by (simp add: ne_cstr_def)
qed

text \<open>
  A capacity of 16 after assignment from the null pointer.
\<close>

theorem null_pointer_asymmetry_witness:
  "empty_fs \<lparr>Data = NUL # ''xxxxxxxxxxxxxxx''\<rparr> = Inr True \<and>
   eq_cstr \<lparr>Data = NUL # ''xxxxxxxxxxxxxxx''\<rparr> None = Inr False \<and>
   ne_cstr \<lparr>Data = NUL # ''xxxxxxxxxxxxxxx''\<rparr> None = Inr True \<and>
   eq_sv \<lparr>Data = NUL # ''xxxxxxxxxxxxxxx''\<rparr> [] = Inr True \<and>
   eq_cstr \<lparr>Data = NUL # ''xxxxxxxxxxxxxxx''\<rparr> (Some [NUL]) = Inr True \<and>
   ne_sv \<lparr>Data = NUL # ''xxxxxxxxxxxxxxx''\<rparr> [] = Inr False \<and>
   ne_cstr \<lparr>Data = NUL # ''xxxxxxxxxxxxxxx''\<rparr> (Some [NUL]) = Inr False"
proof -
  have h: "empty_fs \<lparr>Data = NUL # ''xxxxxxxxxxxxxxx''\<rparr> = Inr True"
    by (simp add: empty_fs_def)
  from h null_pointer_asymmetry [of "\<lparr>Data = NUL # ''xxxxxxxxxxxxxxx''\<rparr>"] show ?thesis
    by (elim conjE) (erule impE, assumption, elim conjE, intro conjI; assumption)
qed

text \<open>
  C5. Equality between two instances of any two capacities compares the logical
  contents only: for instances satisfying the invariant, \<^verbatim>\<open>==\<close> holds exactly when the
  bytes before the first NUL agree, and \<^verbatim>\<open>!=\<close> exactly when they differ.
\<close>

theorem eq_fs_compares_content:
  assumes "invariant a" and "invariant c"
  shows "eq_fs a c = Inr (content (Data a) = content (Data c)) \<and>
         ne_fs a c = Inr (content (Data a) \<noteq> content (Data c))"
  using assms by (simp add: invariant_iff eq_fs_terminated ne_fs_def)

text \<open>
  \<open>hi\<close> in capacities 8 and 32 compare equal; \<open>hi\<close> and \<open>ho\<close> in capacity 8 do not.
\<close>

theorem eq_fs_compares_content_witness:
  "FixedString_cstr Debug ''xxxxxxxx'' (Some (''hi'' @ [NUL])) =
     Inr \<lparr>Data = ''hi'' @ NUL # ''xxxxx''\<rparr> \<and>
   FixedString_cstr Debug ''xxxxxxxxxxxxxxxxxxxxxxxxxxxxxxxx'' (Some (''hi'' @ [NUL])) =
     Inr \<lparr>Data = ''hi'' @ NUL # ''xxxxxxxxxxxxxxxxxxxxxxxxxxxxx''\<rparr> \<and>
   FixedString_cstr Debug ''xxxxxxxx'' (Some (''ho'' @ [NUL])) =
     Inr \<lparr>Data = ''ho'' @ NUL # ''xxxxx''\<rparr> \<and>
   invariant \<lparr>Data = ''hi'' @ NUL # ''xxxxx''\<rparr> \<and>
   invariant \<lparr>Data = ''hi'' @ NUL # ''xxxxxxxxxxxxxxxxxxxxxxxxxxxxx''\<rparr> \<and>
   invariant \<lparr>Data = ''ho'' @ NUL # ''xxxxx''\<rparr> \<and>
   eq_fs \<lparr>Data = ''hi'' @ NUL # ''xxxxx''\<rparr>
         \<lparr>Data = ''hi'' @ NUL # ''xxxxxxxxxxxxxxxxxxxxxxxxxxxxx''\<rparr> = Inr True \<and>
   ne_fs \<lparr>Data = ''hi'' @ NUL # ''xxxxx''\<rparr>
         \<lparr>Data = ''hi'' @ NUL # ''xxxxxxxxxxxxxxxxxxxxxxxxxxxxx''\<rparr> = Inr False \<and>
   eq_fs \<lparr>Data = ''hi'' @ NUL # ''xxxxx''\<rparr> \<lparr>Data = ''ho'' @ NUL # ''xxxxx''\<rparr> = Inr False \<and>
   ne_fs \<lparr>Data = ''hi'' @ NUL # ''xxxxx''\<rparr> \<lparr>Data = ''ho'' @ NUL # ''xxxxx''\<rparr> = Inr True"
proof -
  have k: "FixedString_cstr Debug ''xxxxxxxx'' (Some (''hi'' @ [NUL])) =
             Inr \<lparr>Data = ''hi'' @ NUL # ''xxxxx''\<rparr>"
    "FixedString_cstr Debug ''xxxxxxxxxxxxxxxxxxxxxxxxxxxxxxxx'' (Some (''hi'' @ [NUL])) =
       Inr \<lparr>Data = ''hi'' @ NUL # ''xxxxxxxxxxxxxxxxxxxxxxxxxxxxx''\<rparr>"
    "FixedString_cstr Debug ''xxxxxxxx'' (Some (''ho'' @ [NUL])) =
       Inr \<lparr>Data = ''ho'' @ NUL # ''xxxxx''\<rparr>"
    by (simp_all add: FixedString_cstr_def Assign_cstr_def string_view_of_def Assign_sv_def
        assert_that_def Capacity_def size_t_minus_def memcpy_def store_def)
  have h1: "invariant \<lparr>Data = ''hi'' @ NUL # ''xxxxx''\<rparr>"
    by (simp add: invariant_def terminated_def length_fs_def Capacity_def)
  have h2: "invariant \<lparr>Data = ''hi'' @ NUL # ''xxxxxxxxxxxxxxxxxxxxxxxxxxxxx''\<rparr>"
    by (simp add: invariant_def terminated_def length_fs_def Capacity_def)
  have h3: "invariant \<lparr>Data = ''ho'' @ NUL # ''xxxxx''\<rparr>"
    by (simp add: invariant_def terminated_def length_fs_def Capacity_def)
  from k h1 h2 h3 eq_fs_compares_content [OF h1 h2] eq_fs_compares_content [OF h1 h3]
  show ?thesis
    by (simp add: content_def)
qed

subsection \<open>The null pointer as a source\<close>

text \<open>
  C6. For a capacity \<open>N > 0\<close>, assigning or constructing from the null pointer
  completes in both build modes and yields the empty string: \<^verbatim>\<open>empty()\<close> is true and
  \<^verbatim>\<open>length()\<close> is 0. The null pointer carries no array, so nothing is read through it.
\<close>

theorem Assign_null:
  assumes "0 < Capacity fs"
  shows "\<exists>fs'. Assign_cstr b fs None = Inr fs' \<and> assign_cstr b fs None = Inr fs' \<and>
           FixedString_cstr b (Data fs) None = Inr fs' \<and>
           Capacity fs' = Capacity fs \<and> empty_fs fs' = Inr True \<and> length_fs fs' = Inr 0"
proof -
  define fs' where "fs' = fs\<lparr>Data := NUL # tl (Data fs)\<rparr>"
  have r: "Assign_cstr b fs None = Inr fs'"
    using assms by (simp add: Assign_cstr_None fs'_def)
  then have a: "assign_cstr b fs None = Inr fs'"
    by (simp add: assign_cstr_def)
  have same: "\<lparr>Data = Data fs\<rparr> = fs"
    by simp
  have k: "FixedString_cstr b (Data fs) None = Inr fs'"
    unfolding FixedString_cstr_def same by (rule r)
  have c: "Capacity fs' = Capacity fs"
    using assms by (simp add: Capacity_def fs'_def)
  have e: "empty_fs fs' = Inr True"
    by (simp add: empty_fs_def fs'_def)
  have l: "length_fs fs' = Inr 0"
    by (simp add: length_fs_def fs'_def)
  from r a k c e l show ?thesis
    by (intro exI [of _ fs'] conjI) assumption+
qed

text \<open>
  A capacity of 16.
\<close>

theorem Assign_null_witness:
  "0 < Capacity \<lparr>Data = ''xxxxxxxxxxxxxxxx''\<rparr> \<and>
   (\<exists>fs'. Assign_cstr Debug \<lparr>Data = ''xxxxxxxxxxxxxxxx''\<rparr> None = Inr fs' \<and>
      assign_cstr Debug \<lparr>Data = ''xxxxxxxxxxxxxxxx''\<rparr> None = Inr fs' \<and>
      FixedString_cstr Debug ''xxxxxxxxxxxxxxxx'' None = Inr fs' \<and>
      Capacity fs' = 16 \<and> empty_fs fs' = Inr True \<and> length_fs fs' = Inr 0)"
proof -
  have h: "0 < Capacity \<lparr>Data = ''xxxxxxxxxxxxxxxx''\<rparr>"
    by (simp add: Capacity_def)
  have c: "Capacity \<lparr>Data = ''xxxxxxxxxxxxxxxx''\<rparr> = 16"
    "Data \<lparr>Data = ''xxxxxxxxxxxxxxxx''\<rparr> = ''xxxxxxxxxxxxxxxx''"
    by (simp_all add: Capacity_def)
  from Assign_null [OF h, of Debug] have
    "\<exists>fs'. Assign_cstr Debug \<lparr>Data = ''xxxxxxxxxxxxxxxx''\<rparr> None = Inr fs' \<and>
      assign_cstr Debug \<lparr>Data = ''xxxxxxxxxxxxxxxx''\<rparr> None = Inr fs' \<and>
      FixedString_cstr Debug ''xxxxxxxxxxxxxxxx'' None = Inr fs' \<and>
      Capacity fs' = 16 \<and> empty_fs fs' = Inr True \<and> length_fs fs' = Inr 0"
    unfolding c .
  with h show ?thesis
    by (rule conjI)
qed

subsection \<open>The string and pointer overloads\<close>

text \<open>
  C7, as amended. Assignment and construction from a \<^verbatim>\<open>std::string\<close> go through
  \<^verbatim>\<open>c_str()\<close>, so they are \<open>Assign\<close> on the view over the string's bytes before its first
  NUL byte; for a string that holds no NUL byte this is the view over all of its bytes.
  Assignment and construction from a non-null pointer to a terminated array are
  \<open>Assign\<close> on the view over the array's bytes before its terminator.
\<close>

theorem string_and_pointer_reduce_to_view:
  "assign_string b fs s = assign_sv b fs (content s) \<and>
   FixedString_string b raw s = FixedString_sv b raw (content s) \<and>
   (NUL \<notin> set s \<longrightarrow>
      assign_string b fs s = assign_sv b fs s \<and>
      FixedString_string b raw s = FixedString_sv b raw s) \<and>
   (terminated m \<longrightarrow>
      Assign_cstr b fs (Some m) = Assign_sv b fs (content m) \<and>
      assign_cstr b fs (Some m) = assign_sv b fs (content m) \<and>
      FixedString_cstr b raw (Some m) = FixedString_sv b raw (content m))"
  by (simp add: assign_string_def assign_sv_def assign_cstr_def FixedString_string_def
      FixedString_sv_def FixedString_cstr_def Assign_cstr_string Assign_cstr_Some content_id)

text \<open>
  The string \<open>hi\<close>, a pointer to \<open>hi\<close> followed by a NUL and further bytes, and
  the string \<open>a\<close>, NUL, \<open>b\<close>.
\<close>

theorem string_and_pointer_reduce_to_view_witness:
  "NUL \<notin> set ''hi'' \<and> terminated (''hi'' @ NUL # ''zz'') \<and>
   assign_string Debug \<lparr>Data = ''xxxxxxxx''\<rparr> ''hi'' =
     assign_sv Debug \<lparr>Data = ''xxxxxxxx''\<rparr> ''hi'' \<and>
   FixedString_string Debug ''xxxxxxxx'' ''hi'' = FixedString_sv Debug ''xxxxxxxx'' ''hi'' \<and>
   assign_cstr Debug \<lparr>Data = ''xxxxxxxx''\<rparr> (Some (''hi'' @ NUL # ''zz'')) =
     assign_sv Debug \<lparr>Data = ''xxxxxxxx''\<rparr> ''hi'' \<and>
   FixedString_cstr Debug ''xxxxxxxx'' (Some (''hi'' @ NUL # ''zz'')) =
     FixedString_sv Debug ''xxxxxxxx'' ''hi'' \<and>
   assign_string Debug \<lparr>Data = ''xxxxxxxx''\<rparr> [CHR ''a'', NUL, CHR ''b''] =
     assign_sv Debug \<lparr>Data = ''xxxxxxxx''\<rparr> ''a''"
proof -
  have h1: "NUL \<notin> set ''hi''"
    by simp
  have h2: "terminated (''hi'' @ NUL # ''zz'')"
    by (simp add: terminated_def)
  have c: "content (''hi'' @ NUL # ''zz'') = ''hi''" "content [CHR ''a'', NUL, CHR ''b''] = ''a''"
    by (simp_all add: content_def)
  from h1 h2
    string_and_pointer_reduce_to_view
      [of Debug "\<lparr>Data = ''xxxxxxxx''\<rparr>" "''hi''" "''xxxxxxxx''" "''hi'' @ NUL # ''zz''"]
    string_and_pointer_reduce_to_view
      [of Debug "\<lparr>Data = ''xxxxxxxx''\<rparr>" "[CHR ''a'', NUL, CHR ''b'']" "''xxxxxxxx''" "[]"]
  show ?thesis
    unfolding c by (elim conjE) (erule impE, assumption, erule impE, assumption, elim conjE, intro conjI; assumption)
qed

text \<open>
  C7 as stated, for every \<^verbatim>\<open>std::string\<close>, fails: for the string \<open>a\<close>, NUL, \<open>b\<close> the
  string overload writes two bytes of a capacity of 8 and the view over all three bytes
  writes four; with a capacity of 2 a debug build completes the first and stops at the
  truncation assertion in the second.
\<close>

theorem string_embedded_NUL_counterexample:
  "assign_string Release \<lparr>Data = ''xxxxxxxx''\<rparr> [CHR ''a'', NUL, CHR ''b''] =
     Inr \<lparr>Data = [CHR ''a'', NUL] @ ''xxxxxx''\<rparr> \<and>
   assign_sv Release \<lparr>Data = ''xxxxxxxx''\<rparr> [CHR ''a'', NUL, CHR ''b''] =
     Inr \<lparr>Data = [CHR ''a'', NUL, CHR ''b'', NUL] @ ''xxxx''\<rparr> \<and>
   assign_string Release \<lparr>Data = ''xxxxxxxx''\<rparr> [CHR ''a'', NUL, CHR ''b''] \<noteq>
     assign_sv Release \<lparr>Data = ''xxxxxxxx''\<rparr> [CHR ''a'', NUL, CHR ''b''] \<and>
   assign_string Debug \<lparr>Data = ''xx''\<rparr> [CHR ''a'', NUL, CHR ''b''] =
     Inr \<lparr>Data = [CHR ''a'', NUL]\<rparr> \<and>
   assign_sv Debug \<lparr>Data = ''xx''\<rparr> [CHR ''a'', NUL, CHR ''b''] = Inl TruncationAssertion"
  by (simp add: assign_string_def assign_sv_def Assign_cstr_def c_str_of_string_def
      string_view_of_def Assign_sv_def assert_that_def Capacity_def size_t_minus_def
      memcpy_def store_def)

subsection \<open>Concatenation\<close>

text \<open>
  C8. For instances satisfying the invariant, each of the five \<^verbatim>\<open>operator+\<close> overloads
  returns the concatenation of its operands' contents: view and instance on either
  side, two instances of any capacities, and instance and pointer on either side, where
  a null pointer counts as empty and a non-null pointer to a terminated array
  contributes the bytes before its terminator.
\<close>

theorem concatenation:
  assumes "invariant a" and "invariant c"
  shows "plus_sv_fs sv a = Inr (sv @ content (Data a)) \<and>
         plus_fs_sv a sv = Inr (content (Data a) @ sv) \<and>
         plus_fs_fs a c = Inr (content (Data a) @ content (Data c)) \<and>
         plus_fs_cstr a None = Inr (content (Data a)) \<and>
         plus_cstr_fs None a = Inr (content (Data a)) \<and>
         (terminated m \<longrightarrow>
            plus_fs_cstr a (Some m) = Inr (content (Data a) @ content m) \<and>
            plus_cstr_fs (Some m) a = Inr (content m @ content (Data a)))"
proof -
  have ta: "terminated (Data a)" and tc: "terminated (Data c)"
    using assms by (simp_all add: invariant_iff)
  have e: "terminated [NUL]" "content [NUL] = []"
    by (simp_all add: terminated_def content_def)
  show ?thesis
    using ta tc e
    by (simp add: plus_sv_fs_def plus_fs_sv_def plus_fs_fs_def plus_fs_cstr_def
        plus_cstr_fs_def or_empty_def string_of_terminated append_cstr_terminated)
qed

text \<open>
  \<open>ab\<close> in a capacity of 8 with \<open>cd\<close> as a view, as an instance of capacity 16 and as
  a pointer.
\<close>

theorem concatenation_witness:
  "invariant \<lparr>Data = ''ab'' @ NUL # ''xxxxx''\<rparr> \<and>
   invariant \<lparr>Data = ''cd'' @ NUL # ''xxxxxxxxxxxxx''\<rparr> \<and>
   terminated (''cd'' @ [NUL]) \<and>
   plus_sv_fs ''cd'' \<lparr>Data = ''ab'' @ NUL # ''xxxxx''\<rparr> = Inr ''cdab'' \<and>
   plus_fs_sv \<lparr>Data = ''ab'' @ NUL # ''xxxxx''\<rparr> ''cd'' = Inr ''abcd'' \<and>
   plus_fs_fs \<lparr>Data = ''ab'' @ NUL # ''xxxxx''\<rparr> \<lparr>Data = ''cd'' @ NUL # ''xxxxxxxxxxxxx''\<rparr> =
     Inr ''abcd'' \<and>
   plus_fs_cstr \<lparr>Data = ''ab'' @ NUL # ''xxxxx''\<rparr> None = Inr ''ab'' \<and>
   plus_cstr_fs None \<lparr>Data = ''ab'' @ NUL # ''xxxxx''\<rparr> = Inr ''ab'' \<and>
   plus_fs_cstr \<lparr>Data = ''ab'' @ NUL # ''xxxxx''\<rparr> (Some (''cd'' @ [NUL])) = Inr ''abcd'' \<and>
   plus_cstr_fs (Some (''cd'' @ [NUL])) \<lparr>Data = ''ab'' @ NUL # ''xxxxx''\<rparr> = Inr ''cdab''"
proof -
  have h1: "invariant \<lparr>Data = ''ab'' @ NUL # ''xxxxx''\<rparr>"
    by (simp add: invariant_def terminated_def length_fs_def Capacity_def)
  have h2: "invariant \<lparr>Data = ''cd'' @ NUL # ''xxxxxxxxxxxxx''\<rparr>"
    by (simp add: invariant_def terminated_def length_fs_def Capacity_def)
  have h3: "terminated (''cd'' @ [NUL])"
    by (simp add: terminated_def)
  from h1 h2 h3 concatenation [OF h1 h2, of "''cd''" "''cd'' @ [NUL]"] show ?thesis
    by (simp add: content_def)
qed

subsection \<open>The frame of \<open>Assign\<close>\<close>

text \<open>
  C9. Whenever \<open>Assign\<close> from a view of length \<open>L\<close> completes (a release build with
  \<open>N > 0\<close>, or a debug build with \<open>L < N\<close>), the bytes before offset \<open>min(L, N - 1)\<close> are
  the input's, the byte at that offset is the terminator, and every byte of the buffer
  after it keeps the value it had before the call.
\<close>

theorem Assign_frame:
  assumes "0 < Capacity fs" and "b = Debug \<longrightarrow> length sv < Capacity fs"
  shows "\<exists>fs'. Assign_sv b fs sv = Inr fs' \<and> Capacity fs' = Capacity fs \<and>
           (\<forall>i. i < min (length sv) (Capacity fs - 1) \<longrightarrow> Data fs' ! i = sv ! i) \<and>
           Data fs' ! min (length sv) (Capacity fs - 1) = NUL \<and>
           (\<forall>i. min (length sv) (Capacity fs - 1) < i \<and> i < Capacity fs \<longrightarrow>
              Data fs' ! i = Data fs ! i)"
proof -
  define k where "k = min (length sv) (Capacity fs - 1)"
  define fs' where "fs' = fs\<lparr>Data := take k sv @ NUL # drop (Suc k) (Data fs)\<rparr>"
  have k: "k \<le> length sv" "k < length (Data fs)"
    using assms(1) unfolding k_def Capacity_def by linarith+
  have lk: "length (take k sv) = k"
    using k by simp
  have r: "Assign_sv b fs sv = Inr fs'"
    using Assign_sv_Inr [OF assms] by (simp add: fs'_def k_def)
  have c: "Capacity fs' = Capacity fs"
    using k by (simp add: Capacity_def fs'_def)
  have w: "\<forall>i. i < k \<longrightarrow> Data fs' ! i = sv ! i"
    using lk by (simp add: fs'_def nth_append)
  have z: "Data fs' ! k = NUL"
    using lk by (simp add: fs'_def nth_append)
  have f: "\<forall>i. k < i \<and> i < Capacity fs \<longrightarrow> Data fs' ! i = Data fs ! i"
  proof (intro allI impI)
    fix i
    assume i: "k < i \<and> i < Capacity fs"
    then obtain j where j: "i = Suc k + j"
      using less_iff_Suc_add [of k i] by auto
    have "Data fs' ! i = (NUL # drop (Suc k) (Data fs)) ! (i - k)"
      using lk i by (simp add: fs'_def nth_append)
    also have "\<dots> = drop (Suc k) (Data fs) ! j"
      by (simp add: j)
    also have "\<dots> = Data fs ! i"
      using i by (simp add: j Capacity_def)
    finally show "Data fs' ! i = Data fs ! i" .
  qed
  from r c w z f show ?thesis
    unfolding k_def by (intro exI [of _ fs'] conjI) assumption+
qed

text \<open>
  The two bytes \<open>ab\<close> assigned over the six bytes \<open>uvwxyz\<close> in a debug build.
\<close>

theorem Assign_frame_witness:
  "0 < Capacity \<lparr>Data = ''uvwxyz''\<rparr> \<and>
   length ''ab'' < Capacity \<lparr>Data = ''uvwxyz''\<rparr> \<and>
   (\<exists>fs'. Assign_sv Debug \<lparr>Data = ''uvwxyz''\<rparr> ''ab'' = Inr fs' \<and>
      Data fs' ! 0 = CHR ''a'' \<and> Data fs' ! 1 = CHR ''b'' \<and> Data fs' ! 2 = NUL \<and>
      Data fs' ! 3 = CHR ''x'' \<and> Data fs' ! 4 = CHR ''y'' \<and> Data fs' ! 5 = CHR ''z'')"
proof -
  have h1: "0 < Capacity \<lparr>Data = ''uvwxyz''\<rparr>"
    by (simp add: Capacity_def)
  have h2: "length ''ab'' < Capacity \<lparr>Data = ''uvwxyz''\<rparr>"
    by (simp add: Capacity_def)
  then have h2': "Debug = Debug \<longrightarrow> length ''ab'' < Capacity \<lparr>Data = ''uvwxyz''\<rparr>"
    by (rule impI)
  from Assign_frame [OF h1 h2'] obtain fs' where
    r: "Assign_sv Debug \<lparr>Data = ''uvwxyz''\<rparr> ''ab'' = Inr fs'" and
    w: "\<forall>i. i < min (length ''ab'') (Capacity \<lparr>Data = ''uvwxyz''\<rparr> - 1) \<longrightarrow>
          Data fs' ! i = ''ab'' ! i" and
    z: "Data fs' ! min (length ''ab'') (Capacity \<lparr>Data = ''uvwxyz''\<rparr> - 1) = NUL" and
    f: "\<forall>i. min (length ''ab'') (Capacity \<lparr>Data = ''uvwxyz''\<rparr> - 1) < i \<and>
          i < Capacity \<lparr>Data = ''uvwxyz''\<rparr> \<longrightarrow>
          Data fs' ! i = Data \<lparr>Data = ''uvwxyz''\<rparr> ! i"
    by (elim conjE exE)
  have 0: "Data fs' ! 0 = CHR ''a''"
    using w [rule_format, of 0] by (simp add: Capacity_def)
  have 1: "Data fs' ! 1 = CHR ''b''"
    using w [rule_format, of 1] by (simp add: Capacity_def)
  have 2: "Data fs' ! 2 = NUL"
    using z by (simp add: Capacity_def numeral_2_eq_2)
  have 3: "Data fs' ! 3 = CHR ''x''"
    using f [rule_format, of 3] by (simp add: Capacity_def)
  have 4: "Data fs' ! 4 = CHR ''y''"
    using f [rule_format, of 4] by (simp add: Capacity_def)
  have 5: "Data fs' ! 5 = CHR ''z''"
    using f [rule_format, of 5] by (simp add: Capacity_def)
  from r 0 1 2 3 4 5 have
    "\<exists>fs'. Assign_sv Debug \<lparr>Data = ''uvwxyz''\<rparr> ''ab'' = Inr fs' \<and>
      Data fs' ! 0 = CHR ''a'' \<and> Data fs' ! 1 = CHR ''b'' \<and> Data fs' ! 2 = NUL \<and>
      Data fs' ! 3 = CHR ''x'' \<and> Data fs' ! 4 = CHR ''y'' \<and> Data fs' ! 5 = CHR ''z''"
    by (intro exI [of _ fs'] conjI) assumption+
  with h1 h2 show ?thesis
    by (intro conjI) assumption+
qed

subsection \<open>Round trip through the owned string\<close>

text \<open>
  C10. For an instance \<open>s\<close> of capacity \<open>N\<close> satisfying the invariant, constructing an
  instance of capacity \<open>N\<close> from \<^verbatim>\<open>s.ToString()\<close> completes in both build modes (the
  truncation assertion does not fire), and the new instance has the content of \<open>s\<close> and
  compares equal to it.
\<close>

theorem ToString_round_trip:
  assumes "invariant s" and "length raw = Capacity s"
  shows "\<exists>str t. ToString s = Inr str \<and> FixedString_string b raw str = Inr t \<and>
           Capacity t = Capacity s \<and> invariant t \<and>
           to_string_view t = to_string_view s \<and>
           eq_fs t s = Inr True \<and> eq_fs s t = Inr True"
proof -
  define str where "str = content (Data s)"
  define t where "t = \<lparr>Data = str @ NUL # drop (Suc (length str)) raw\<rparr>"
  have ts: "terminated (Data s)"
    using assms(1) by (simp add: invariant_iff)
  have l: "length str < length raw"
    using content_length_le [OF ts] assms(2) by (simp add: str_def Capacity_def)
  have n: "NUL \<notin> set str"
    unfolding str_def by (rule content_no_NUL)
  have cs: "content str = str"
    using n by (rule content_id)
  have 1: "ToString s = Inr str"
    using ts by (simp add: ToString_def string_of_terminated str_def)
  have k: "min (length str) (Capacity \<lparr>Data = raw\<rparr> - 1) = length str"
    using l by (simp add: Capacity_def)
  have cap: "0 < Capacity \<lparr>Data = raw\<rparr>"
    using l by (cases raw) (simp_all add: Capacity_def)
  have fit: "b = Debug \<longrightarrow> length str < Capacity \<lparr>Data = raw\<rparr>"
    using l by (simp add: Capacity_def)
  have "Assign_sv b \<lparr>Data = raw\<rparr> str = Inr t"
    using Assign_sv_Inr [OF cap fit, unfolded k] by (simp add: t_def)
  then have 2: "FixedString_string b raw str = Inr t"
    by (simp add: FixedString_string_def Assign_cstr_string cs)
  have 3: "Capacity t = Capacity s"
    using l assms(2) by (simp add: Capacity_def t_def)
  have tt: "terminated (Data t)"
    by (simp add: t_def terminated_def)
  then have 4: "invariant t"
    by (simp add: invariant_iff)
  have ct: "content (Data t) = content (Data s)"
    using n by (simp add: t_def content_append_NUL) (simp add: str_def)
  have 5: "to_string_view t = to_string_view s"
    using ts tt by (simp add: to_string_view_def string_view_of_terminated ct)
  have 6: "eq_fs t s = Inr True"
    using ts tt by (simp add: eq_fs_terminated ct)
  have 7: "eq_fs s t = Inr True"
    using ts tt by (simp add: eq_fs_terminated ct)
  from 1 2 3 4 5 6 7 show ?thesis
    by (intro exI [of _ str] exI [of _ t] conjI) assumption+
qed

text \<open>
  \<open>hi\<close> in a capacity of 8.
\<close>

theorem ToString_round_trip_witness:
  "invariant \<lparr>Data = ''hi'' @ NUL # ''uvwxy''\<rparr> \<and>
   length ''xxxxxxxx'' = Capacity \<lparr>Data = ''hi'' @ NUL # ''uvwxy''\<rparr> \<and>
   (\<exists>str t. ToString \<lparr>Data = ''hi'' @ NUL # ''uvwxy''\<rparr> = Inr str \<and>
      FixedString_string Debug ''xxxxxxxx'' str = Inr t \<and>
      Capacity t = Capacity \<lparr>Data = ''hi'' @ NUL # ''uvwxy''\<rparr> \<and> invariant t \<and>
      to_string_view t = to_string_view \<lparr>Data = ''hi'' @ NUL # ''uvwxy''\<rparr> \<and>
      eq_fs t \<lparr>Data = ''hi'' @ NUL # ''uvwxy''\<rparr> = Inr True \<and>
      eq_fs \<lparr>Data = ''hi'' @ NUL # ''uvwxy''\<rparr> t = Inr True)"
proof -
  have h1: "invariant \<lparr>Data = ''hi'' @ NUL # ''uvwxy''\<rparr>"
    by (simp add: invariant_def terminated_def length_fs_def Capacity_def)
  have h2: "length ''xxxxxxxx'' = Capacity \<lparr>Data = ''hi'' @ NUL # ''uvwxy''\<rparr>"
    by (simp add: Capacity_def)
  from h1 h2 ToString_round_trip [OF h1 h2, of Debug] show ?thesis
    by (intro conjI) assumption+
qed

end
